theory Spec2Isabelle
  imports Main
begin

section \<open>Python values\<close>

text \<open>
  A Python \<open>str\<close> is a sequence of Unicode code points; the title cleanup of
  \<open>get_track\<close> deletes code points beyond one byte, so text is a list of code
  points and not a list of bytes. Tag and class names, and the messages of
  exceptions, are plain ASCII and stay \<open>string\<close>.
\<close>

type_synonym ustr = "nat list"
type_synonym bytes = "nat list"

definition ustr_of :: "string \<Rightarrow> ustr" where
  "ustr_of s = map of_char s"

text \<open>
  The exceptions a run can raise. \<open>HTTPError\<close> carries the status code of the
  response; \<open>URLError\<close> is the failure of the connection itself (DNS, refused
  connection), \<open>TimeoutError\<close> a timeout.
\<close>

datatype exn =
    ValueError string
  | HTTPError nat
  | URLError string
  | TimeoutError
  | UnicodeDecodeError
  | IncompleteRead
  | AttributeError string
  | TypeError string

fun is_HTTPError :: "exn \<Rightarrow> bool" where
  "is_HTTPError (HTTPError code) = True"
| "is_HTTPError e = False"

text \<open>
  The arguments \<open>start_page\<close> and \<open>end_page\<close> are untyped. The instances of
  \<open>int\<close> are the integers and, \<open>bool\<close> being a subclass of \<open>int\<close>, the two
  truth values; every other object is \<open>NotInt\<close>, with the name of its type.
\<close>

datatype int_inst = PyInt int | PyBool bool

datatype pyval = IsInt int_inst | NotInt string

fun int_val :: "int_inst \<Rightarrow> int" where
  "int_val (PyInt i) = i"
| "int_val (PyBool b) = (if b then 1 else 0)"

text \<open>\<open>str\<close> of an integer, as an f-string formats it: decimal, with a minus sign.\<close>

fun digits :: "nat \<Rightarrow> ustr" where
  "digits n = (if n < 10 then [48 + n] else digits (n div 10) @ [48 + n mod 10])"

declare digits.simps [simp del]

definition str_int :: "int \<Rightarrow> ustr" where
  "str_int i = (if i < 0 then 45 # digits (nat (- i)) else digits (nat i))"

fun format_inst :: "int_inst \<Rightarrow> ustr" where
  "format_inst (PyInt i) = str_int i"
| "format_inst (PyBool b) = (if b then ustr_of ''True'' else ustr_of ''False'')"

section \<open>The parsed document\<close>

text \<open>
  What BeautifulSoup hands to the scraper: a tree of tags and strings. Of a
  tag's attributes only \<open>class\<close> is read; it is multi-valued, so the parser
  stores the list of its whitespace-separated values (\<open>None\<close> when the tag has
  no \<open>class\<close> attribute).
\<close>

datatype node =
    Tag (tag_name: string) (tag_class: "string list option") (contents: "node list")
  | NavigableString ustr

text \<open>\<open>Tag.descendants\<close>: every node below a tag, in document order.\<close>

fun descendants :: "node \<Rightarrow> node list"
  and descendants_list :: "node list \<Rightarrow> node list" where
  "descendants (Tag n c ks) = descendants_list ks"
| "descendants (NavigableString s) = []"
| "descendants_list [] = []"
| "descendants_list (k # ks) = k # descendants k @ descendants_list ks"

text \<open>
  \<open>Tag.string\<close>: the string of a tag with exactly one child, that child being
  a string or a tag that has a \<open>string\<close> itself; \<open>None\<close> otherwise.
\<close>

fun node_string :: "node \<Rightarrow> ustr option" where
  "node_string (NavigableString s) = Some s"
| "node_string (Tag n c ks) = (case ks of [k] \<Rightarrow> node_string k | _ \<Rightarrow> None)"

fun join_with :: "string \<Rightarrow> string list \<Rightarrow> string" where
  "join_with sep [] = []"
| "join_with sep [x] = x"
| "join_with sep (x # y # r) = x @ sep @ join_with sep (y # r)"

text \<open>
  How a search matches a multi-valued attribute against a list of wanted
  values: one of the tag's values is wanted, or the values joined by a space
  are.
\<close>

definition class_matches :: "string list \<Rightarrow> string list option \<Rightarrow> bool" where
  "class_matches wanted cls =
     (case cls of
        None \<Rightarrow> False
      | Some cs \<Rightarrow> list_ex (\<lambda>c. c \<in> set wanted) cs
                    \<or> join_with '' '' cs \<in> set wanted)"

fun name_matches :: "string \<Rightarrow> node \<Rightarrow> bool" where
  "name_matches nm (Tag n c ks) = (n = nm)"
| "name_matches nm (NavigableString s) = False"

fun tag_matches :: "string \<Rightarrow> string list \<Rightarrow> node \<Rightarrow> bool" where
  "tag_matches nm wanted (Tag n c ks) = (n = nm \<and> class_matches wanted c)"
| "tag_matches nm wanted (NavigableString s) = False"

text \<open>
  \<open>find_all(name)\<close> and \<open>find_all(name, {"class": wanted})\<close> filter the
  descendants; \<open>tag.h2\<close> and \<open>tag.ul\<close> are \<open>find(name)\<close>, the first descendant
  of that name or \<open>None\<close>.
\<close>

definition find_all_name :: "string \<Rightarrow> node \<Rightarrow> node list" where
  "find_all_name nm t = filter (name_matches nm) (descendants t)"

definition find_all_class :: "string \<Rightarrow> string list \<Rightarrow> node \<Rightarrow> node list" where
  "find_all_class nm wanted t = filter (tag_matches nm wanted) (descendants t)"

definition find_name :: "string \<Rightarrow> node \<Rightarrow> node option" where
  "find_name nm t = List.find (name_matches nm) (descendants t)"

section \<open>get\_track\<close>

text \<open>
  \<open>str.translate\<close> with a table from code points: a code point mapped to
  \<open>None\<close> is deleted, one mapped to a string is replaced by it, one that is not a
  key is kept.
\<close>

fun translate :: "(nat \<Rightarrow> ustr option option) \<Rightarrow> ustr \<Rightarrow> ustr" where
  "translate tbl [] = []"
| "translate tbl (c # cs) =
     (case tbl c of
        None \<Rightarrow> c # translate tbl cs
      | Some None \<Rightarrow> translate tbl cs
      | Some (Some r) \<Rightarrow> r @ translate tbl cs)"

text \<open>
  The table \<open>{ord(i): None for i in "\<dots>"}\<close> over the left double quotation mark
  (8220), the right double quotation mark (8221) and the straight double quote
  (34).
\<close>

definition unwanted :: ustr where
  "unwanted = [8220, 8221, 34]"

definition quote_table :: "nat \<Rightarrow> ustr option option" where
  "quote_table = map_of (map (\<lambda>i. (i, None)) unwanted)"

definition strip_quotes :: "ustr \<Rightarrow> ustr" where
  "strip_quotes title_raw = translate quote_table title_raw"

text \<open>
  \<open>sep.join(items)\<close>; an item that is \<open>None\<close> raises \<open>TypeError\<close>, whose
  message names the position of the first such item, in decimal.
\<close>

fun join :: "ustr \<Rightarrow> ustr list \<Rightarrow> ustr" where
  "join sep [] = []"
| "join sep [x] = x"
| "join sep (x # y # r) = x @ sep @ join sep (y # r)"

fun all_strings :: "ustr option list \<Rightarrow> ustr list option" where
  "all_strings [] = Some []"
| "all_strings (None # r) = None"
| "all_strings (Some s # r) = (case all_strings r of None \<Rightarrow> None | Some ss \<Rightarrow> Some (s # ss))"

fun decimal :: "nat \<Rightarrow> string" where
  "decimal n =
     (if n < 10 then [''0123456789'' ! n]
      else decimal (n div 10) @ [''0123456789'' ! (n mod 10)])"

declare decimal.simps [simp del]

definition py_join :: "ustr \<Rightarrow> ustr option list \<Rightarrow> exn + ustr" where
  "py_join sep items =
     (case all_strings items of
        None \<Rightarrow>
          Inl (TypeError
                (''sequence item ''
                 @ decimal (length (takeWhile (\<lambda>item. item \<noteq> None) items))
                 @ '': expected str instance, NoneType found''))
      | Some ss \<Rightarrow> Inr (join sep ss))"

text \<open>
  The message of the \<open>AttributeError\<close> that reading an attribute of \<open>None\<close>
  raises; the names are in single quotes (character 39).
\<close>

definition quoted :: "string \<Rightarrow> string" where
  "quoted s = [CHR 0x27] @ s @ [CHR 0x27]"

definition no_attribute :: "string \<Rightarrow> string" where
  "no_attribute name = quoted ''NoneType'' @ '' object has no attribute '' @ quoted name"

definition separator :: ustr where
  "separator = [44, 32]"

type_synonym track = "ustr \<times> ustr"

definition get_track :: "node \<Rightarrow> exn + track" where
  "get_track item_link =
     (case find_name ''h2'' item_link of
        None \<Rightarrow> Inl (AttributeError (no_attribute ''string''))
      | Some h2 \<Rightarrow>
          (case node_string h2 of
             None \<Rightarrow> Inl (AttributeError (no_attribute ''translate''))
           | Some title_raw \<Rightarrow>
               (let title = strip_quotes title_raw in
                case find_name ''ul'' item_link of
                  None \<Rightarrow> Inl (AttributeError (no_attribute ''find_all''))
                | Some ul \<Rightarrow>
                    (let artist_list = find_all_name ''li'' ul in
                     case py_join separator (map node_string artist_list) of
                       Inl e \<Rightarrow> Inl e
                     | Inr artists \<Rightarrow> Inr (title, artists)))))"

text \<open>The list comprehension over the entries of a page stops at the first raise.\<close>

fun get_tracks :: "node list \<Rightarrow> exn + track list" where
  "get_tracks [] = Inr []"
| "get_tracks (item_link # r) =
     (case get_track item_link of
        Inl e \<Rightarrow> Inl e
      | Inr t \<Rightarrow> (case get_tracks r of Inl e \<Rightarrow> Inl e | Inr ts \<Rightarrow> Inr (t # ts)))"

section \<open>scrape\_songs\<close>

text \<open>
  The network and the parser are outside the program. \<open>urlopen\<close> answers a URL
  with an exception or a response; a response is what its \<open>read()\<close> gives, the
  body or an exception. \<open>decode_utf8\<close> is \<open>bytes.decode("utf-8")\<close> and
  \<open>html_parser\<close> is \<open>BeautifulSoup(html, "html.parser")\<close>.
\<close>

type_synonym response = "exn + bytes"

record world =
  urlopen :: "ustr \<Rightarrow> exn + response"
  decode_utf8 :: "bytes \<Rightarrow> exn + ustr"
  html_parser :: "ustr \<Rightarrow> node"

text \<open>
  What a run leaves behind: the value returned or the exception raised, the
  page numbers \<open>urlopen\<close> was called for, in order, and the lines printed.
\<close>

record run =
  outcome :: "exn + track list"
  attempted :: "int_inst list"
  printed :: "ustr list"

definition header :: track where
  "header = (ustr_of ''title'', ustr_of ''artist'')"

definition page_url :: "int_inst \<Rightarrow> ustr" where
  "page_url page_no = ustr_of ''https://pitchfork.com/reviews/best/tracks/?page='' @ format_inst page_no"

definition entry_classes :: "string list" where
  "entry_classes = [''title-link'', ''track-collection-item__track-link'']"

definition say :: "bool \<Rightarrow> ustr \<Rightarrow> ustr list \<Rightarrow> ustr list" where
  "say verbose line out = (if verbose then out @ [line] else out)"

function scrape_loop ::
  "world \<Rightarrow> bool \<Rightarrow> int_inst \<Rightarrow> int_inst \<Rightarrow> track list \<Rightarrow> int_inst list \<Rightarrow> ustr list \<Rightarrow> run" where
  "scrape_loop w verbose end_page page_no all_tracks pages out =
     (if int_val page_no \<le> int_val end_page then
        (case urlopen w (page_url page_no) of
           Inl e \<Rightarrow>
             (if is_HTTPError e then
                \<lparr>outcome = Inr all_tracks, attempted = pages @ [page_no],
                 printed = say verbose (ustr_of ''Finished scraping at page ''
                             @ str_int (int_val page_no - 1) @ ustr_of ''.'') out\<rparr>
              else \<lparr>outcome = Inl e, attempted = pages @ [page_no], printed = out\<rparr>)
         | Inr page \<Rightarrow>
             (let out1 = say verbose (ustr_of ''Getting tracks from page ''
                           @ format_inst page_no @ ustr_of ''...'') out
              in case page of
                   Inl e \<Rightarrow> \<lparr>outcome = Inl e, attempted = pages @ [page_no], printed = out1\<rparr>
                 | Inr body \<Rightarrow>
                     (case decode_utf8 w body of
                        Inl e \<Rightarrow> \<lparr>outcome = Inl e, attempted = pages @ [page_no], printed = out1\<rparr>
                      | Inr html \<Rightarrow>
                          (let soup = html_parser w html;
                               item_links = find_all_class ''a'' entry_classes soup
                           in case get_tracks item_links of
                                Inl e \<Rightarrow> \<lparr>outcome = Inl e, attempted = pages @ [page_no], printed = out1\<rparr>
                              | Inr tracks \<Rightarrow>
                                  scrape_loop w verbose end_page (PyInt (int_val page_no + 1))
                                    (all_tracks @ tracks) (pages @ [page_no]) out1))))
      else \<lparr>outcome = Inr all_tracks, attempted = pages,
            printed = say verbose (ustr_of ''Page limit '' @ format_inst end_page
                        @ ustr_of '' reached.'') out\<rparr>)"
  by pat_completeness auto
termination
  by (relation "measure (\<lambda>(w, verbose, end_page, page_no, all_tracks, pages, out).
                  nat (int_val end_page + 1 - int_val page_no))") auto

declare scrape_loop.simps [simp del]

definition raising :: "exn \<Rightarrow> run" where
  "raising e = \<lparr>outcome = Inl e, attempted = [], printed = []\<rparr>"

definition scrape_songs :: "pyval \<Rightarrow> pyval \<Rightarrow> bool \<Rightarrow> world \<Rightarrow> run" where
  "scrape_songs start_page end_page verbose w =
     (let all_tracks = [header] in
      case start_page of
        NotInt ty \<Rightarrow> raising (ValueError ''Page number must be an integer.'')
      | IsInt page_no \<Rightarrow>
          if int_val page_no \<le> 0 then
            raising (ValueError ''First page number must be 1 or higher.'')
          else
            (case end_page of
               NotInt ty \<Rightarrow> raising (ValueError ''Page number must be an integer.'')
             | IsInt end_inst \<Rightarrow>
                 if int_val end_inst < int_val page_no then
                   raising (ValueError
                     ''Final page number must be higher than the first page number.'')
                 else scrape_loop w verbose end_inst page_no all_tracks [] []))"

section \<open>Notions the statements use\<close>

text \<open>
  What one page gives: the body of the loop of \<open>scrape_songs\<close> from
  \<open>urlopen\<close> to the list comprehension, without the loop around it and
  without what it prints.
\<close>

definition page_tracks :: "world \<Rightarrow> int_inst \<Rightarrow> exn + track list" where
  "page_tracks w page_no =
     (case urlopen w (page_url page_no) of
        Inl e \<Rightarrow> Inl e
      | Inr page \<Rightarrow>
          (case page of
             Inl e \<Rightarrow> Inl e
           | Inr body \<Rightarrow>
               (case decode_utf8 w body of
                  Inl e \<Rightarrow> Inl e
                | Inr html \<Rightarrow>
                    get_tracks (find_all_class ''a'' entry_classes (html_parser w html)))))"

text \<open>
  The page numbers the loop holds from \<open>page_no\<close> up to the value \<open>m\<close>: the
  object it started with, then plain integers, as \<open>page_no += 1\<close> makes them.
\<close>

definition pages_through :: "int_inst \<Rightarrow> int \<Rightarrow> int_inst list" where
  "pages_through page_no m = page_no # map PyInt [int_val page_no + 1..m]"

text \<open>The part of a run that does not depend on what is printed.\<close>

definition core :: "run \<Rightarrow> (exn + track list) \<times> int_inst list" where
  "core r = (outcome r, attempted r)"

text \<open>
  How the loop ends at the last page it asks for: with the tracks of that page
  added, with the tracks so far when \<open>urlopen\<close> raised \<open>HTTPError\<close>, with the
  exception otherwise.
\<close>

definition finish :: "world \<Rightarrow> track list \<Rightarrow> int_inst \<Rightarrow> exn + track list" where
  "finish w tracks page_no =
     (case page_tracks w page_no of
        Inr ts \<Rightarrow> Inr (tracks @ ts)
      | Inl e \<Rightarrow>
          (if is_HTTPError e \<and> urlopen w (page_url page_no) = Inl e
           then Inr tracks else Inl e))"

text \<open>
  The precondition of the specification: \<open>start_page\<close> an integer of at least
  1 and \<open>end_page\<close> an integer of at least \<open>start_page\<close>.
\<close>

fun valid_range :: "pyval \<Rightarrow> pyval \<Rightarrow> bool" where
  "valid_range (IsInt s) (IsInt e) = (1 \<le> int_val s \<and> int_val s \<le> int_val e)"
| "valid_range s e = False"

text \<open>
  The number of occurrences of the separator, comma and space, in a string,
  counted from the left as \<open>str.count\<close> does.
\<close>

fun count_separator :: "ustr \<Rightarrow> nat" where
  "count_separator (a # b # r) =
     (if a = 44 \<and> b = 32 then Suc (count_separator r) else count_separator (b # r))"
| "count_separator r = 0"

text \<open>
  An entry link in the words of the specification: an anchor whose classes
  include one of the two recognised names.
\<close>

fun is_entry_link :: "node \<Rightarrow> bool" where
  "is_entry_link (Tag n c ks) =
     (n = ''a'' \<and>
      (case c of
         None \<Rightarrow> False
       | Some cs \<Rightarrow> ''title-link'' \<in> set cs
                     \<or> ''track-collection-item__track-link'' \<in> set cs))"
| "is_entry_link (NavigableString s) = False"

section \<open>Example documents and sites\<close>

definition text_tag :: "string \<Rightarrow> ustr \<Rightarrow> node" where
  "text_tag nm s = Tag nm None [NavigableString s]"

definition entry :: "string \<Rightarrow> ustr \<Rightarrow> ustr list \<Rightarrow> node" where
  "entry cls title artists =
     Tag ''a'' (Some [cls])
       [text_tag ''h2'' title, Tag ''ul'' None (map (text_tag ''li'') artists)]"

definition song_name_entry :: node where
  "song_name_entry =
     entry ''title-link'' ([8220] @ ustr_of ''Song'' @ [8221] @ ustr_of '' '' @ [34] @ ustr_of ''Name'' @ [34])
       [ustr_of ''Ann'', ustr_of ''Bob'']"

definition tyler_entry :: node where
  "tyler_entry = entry ''title-link'' (ustr_of ''EARFQUAKE'') [ustr_of ''Tyler, The Creator'']"

definition no_artist_entry :: node where
  "no_artist_entry = entry ''title-link'' (ustr_of ''Intro'') []"

definition no_headline_entry :: node where
  "no_headline_entry = Tag ''a'' (Some [''title-link'']) [Tag ''ul'' None []]"

definition no_text_entry :: node where
  "no_text_entry =
     Tag ''a'' (Some [''title-link''])
       [Tag ''h2'' None [NavigableString (ustr_of ''One''), Tag ''br'' None []],
        Tag ''ul'' None []]"

definition no_list_entry :: node where
  "no_list_entry = Tag ''a'' (Some [''title-link'']) [text_tag ''h2'' (ustr_of ''One'')]"

definition mixed_page :: node where
  "mixed_page =
     Tag ''[document]'' None
       [Tag ''div'' None
          [entry ''title-link'' (ustr_of ''One'') [ustr_of ''Ann''],
           Tag ''a'' (Some [''nav'']) [],
           entry ''track-collection-item__track-link'' (ustr_of ''Two'') [ustr_of ''Bob'']]]"

text \<open>
  A site with one page, holding an entry of each kind, that answers 404 to
  every other URL; and a site where every request fails with the same exception.
\<close>

definition one_page_site :: world where
  "one_page_site =
     \<lparr>urlopen = (\<lambda>url. if url = page_url (PyInt 1) then Inr (Inr [60, 97, 62])
                        else Inl (HTTPError 404)),
      decode_utf8 = (\<lambda>body. Inr body),
      html_parser = (\<lambda>html. mixed_page)\<rparr>"

definition failing_site :: "exn \<Rightarrow> world" where
  "failing_site e =
     \<lparr>urlopen = (\<lambda>url. Inl e), decode_utf8 = (\<lambda>body. Inr body),
      html_parser = (\<lambda>html. Tag ''[document]'' None [])\<rparr>"

text \<open>
  A site whose first page holds an entry of each kind and that gives the same
  answer, a failure of \<open>urlopen\<close> or a response, to every other URL.
\<close>

definition page_then :: "exn + response \<Rightarrow> world" where
  "page_then answer =
     \<lparr>urlopen = (\<lambda>url. if url = page_url (PyInt 1) then Inr (Inr [60, 97, 62]) else answer),
      decode_utf8 = (\<lambda>body. Inr body),
      html_parser = (\<lambda>html. mixed_page)\<rparr>"

section \<open>Extraction of one entry\<close>

lemmas entry_defs = entry_def text_tag_def find_name_def find_all_name_def find_all_class_def
  ustr_of_def strip_quotes_def quote_table_def unwanted_def py_join_def separator_def
  entry_classes_def class_matches_def

lemma translate_quote_table:
  "translate quote_table s = filter (\<lambda>c. c \<noteq> 8220 \<and> c \<noteq> 8221 \<and> c \<noteq> 34) s"
  by (induction s) (simp_all add: quote_table_def unwanted_def)

lemma all_strings_Some: "all_strings (map Some names) = Some names"
  by (induction names) simp_all

text \<open>
  C7. For every entry from which \<open>get_track\<close> produces a record, the title is
  the text of the headline with every occurrence of the left double quotation
  mark (8220), the right double quotation mark (8221) and the straight double
  quote (34) deleted, nothing put in their place and every other character
  kept in order. The witness is the headline of the specification's example,
  which gives the title \<open>Song Name\<close>.
\<close>

theorem get_track_title:
  assumes "get_track item_link = Inr (title, artists)"
  shows "\<exists>h2 title_raw. find_name ''h2'' item_link = Some h2
           \<and> node_string h2 = Some title_raw
           \<and> title = filter (\<lambda>c. c \<noteq> 8220 \<and> c \<noteq> 8221 \<and> c \<noteq> 34) title_raw"
  using assms
  by (auto simp: get_track_def Let_def strip_quotes_def translate_quote_table
           split: option.splits sum.splits)

theorem get_track_title_witness:
  "get_track song_name_entry = Inr (ustr_of ''Song Name'', ustr_of ''Ann, Bob'')
   \<and> (\<exists>h2 title_raw. find_name ''h2'' song_name_entry = Some h2
           \<and> node_string h2 = Some title_raw
           \<and> ustr_of ''Song Name'' = filter (\<lambda>c. c \<noteq> 8220 \<and> c \<noteq> 8221 \<and> c \<noteq> 34) title_raw)"
proof -
  have g: "get_track song_name_entry = Inr (ustr_of ''Song Name'', ustr_of ''Ann, Bob'')"
    by (simp add: get_track_def song_name_entry_def entry_defs)
  from get_track_title [OF g] g show ?thesis by simp
qed

text \<open>
  C9. The quote-stripping transform of the title is idempotent: applied twice
  to any string, it gives what it gives applied once.
\<close>

theorem strip_quotes_idempotent: "strip_quotes (strip_quotes s) = strip_quotes s"
  by (simp add: strip_quotes_def translate_quote_table)

subsection \<open>The artist field\<close>

lemma count_separator_append_comma:
  "count_separator (xs @ 44 # zs) = count_separator xs + count_separator (44 # zs)"
  by (induction xs rule: count_separator.induct) simp_all

lemma count_separator_sep:
  "count_separator (xs @ separator @ ys) = count_separator xs + Suc (count_separator ys)"
  by (simp add: separator_def count_separator_append_comma)

lemma count_separator_join:
  "names \<noteq> [] \<Longrightarrow>
   count_separator (join separator names)
     = (length names - 1) + sum_list (map count_separator names)"
proof (induction separator names rule: join.induct)
  case 1
  then show ?case by simp
next
  case (2 x)
  then show ?case by simp
next
  case (3 x y r)
  then show ?case by (simp add: count_separator_sep)
qed

text \<open>
  C6, as the code has it. For an entry with a headline text and a list whose
  \<open>k\<close> items each have a string, \<open>get_track\<close> produces a record whose artist
  field is the \<open>k\<close> names joined in their order by comma and space. For
  \<open>k = 0\<close> the field is the empty string and the record is still produced. For
  \<open>k > 0\<close> the field holds \<open>k - 1\<close> occurrences of the separator more than the
  names hold themselves, so exactly \<open>k - 1\<close> when no name contains one. Both
  fields are strings: where the code would meet \<open>None\<close> it raises instead.
\<close>

theorem get_track_artists:
  assumes "find_name ''h2'' item_link = Some h2"
    and "node_string h2 = Some title_raw"
    and "find_name ''ul'' item_link = Some ul"
    and "map node_string (find_all_name ''li'' ul) = map Some names"
  shows "get_track item_link = Inr (strip_quotes title_raw, join separator names)
         \<and> (names = [] \<longrightarrow> join separator names = [])
         \<and> (names \<noteq> [] \<longrightarrow>
              int (count_separator (join separator names))
                = int (length names) - 1 + int (sum_list (map count_separator names)))"
  using assms
  by (cases names)
     (simp_all add: get_track_def py_join_def all_strings_Some count_separator_join)

theorem get_track_artists_witness:
  "get_track song_name_entry = Inr (ustr_of ''Song Name'', ustr_of ''Ann, Bob'')
   \<and> count_separator (ustr_of ''Ann, Bob'') = 1
   \<and> get_track no_artist_entry = Inr (ustr_of ''Intro'', [])"
proof -
  let ?raw = "[8220] @ ustr_of ''Song'' @ [8221] @ ustr_of '' '' @ [34] @ ustr_of ''Name'' @ [34]"
  let ?ul = "Tag ''ul'' None (map (text_tag ''li'') [ustr_of ''Ann'', ustr_of ''Bob''])"
  have h: "find_name ''h2'' song_name_entry = Some (text_tag ''h2'' ?raw)"
    and s: "node_string (text_tag ''h2'' ?raw) = Some ?raw"
    and u: "find_name ''ul'' song_name_entry = Some ?ul"
    and l: "map node_string (find_all_name ''li'' ?ul) = map Some [ustr_of ''Ann'', ustr_of ''Bob'']"
    by (simp_all add: song_name_entry_def entry_def text_tag_def find_name_def find_all_name_def)
  have h0: "find_name ''h2'' no_artist_entry = Some (text_tag ''h2'' (ustr_of ''Intro''))"
    and s0: "node_string (text_tag ''h2'' (ustr_of ''Intro'')) = Some (ustr_of ''Intro'')"
    and u0: "find_name ''ul'' no_artist_entry = Some (Tag ''ul'' None [])"
    and l0: "map node_string (find_all_name ''li'' (Tag ''ul'' None [])) = map Some []"
    by (simp_all add: no_artist_entry_def entry_def text_tag_def find_name_def find_all_name_def)
  from get_track_artists [OF h s u l] get_track_artists [OF h0 s0 u0 l0] show ?thesis
    by (simp add: entry_defs)
qed

text \<open>
  The count of C6 as it was stated fails on an entry whose single artist has a
  comma and a space in the name: one artist, and one occurrence of the
  separator in the field instead of none.
\<close>

theorem get_track_separator_counterexample:
  "get_track tyler_entry = Inr (ustr_of ''EARFQUAKE'', ustr_of ''Tyler, The Creator'')
   \<and> find_name ''ul'' tyler_entry = Some (Tag ''ul'' None [text_tag ''li'' (ustr_of ''Tyler, The Creator'')])
   \<and> length (find_all_name ''li'' (Tag ''ul'' None [text_tag ''li'' (ustr_of ''Tyler, The Creator'')])) = 1
   \<and> count_separator (ustr_of ''Tyler, The Creator'') = 1"
  by (simp add: get_track_def tyler_entry_def entry_defs)

subsection \<open>Malformed entries\<close>

text \<open>
  C8. When the entry has no headline element, or the headline has no string,
  or the entry has no list element, \<open>get_track\<close> raises (Python's
  \<open>AttributeError\<close> on \<open>None\<close>, the malformed-entry failure of the
  specification) and returns no record; the entry is not skipped, since the
  extraction of any list of entries that contains it raises too.
\<close>

theorem get_track_malformed:
  assumes "find_name ''h2'' item_link = None
           \<or> (\<exists>h2. find_name ''h2'' item_link = Some h2 \<and> node_string h2 = None)
           \<or> find_name ''ul'' item_link = None"
  shows "(\<exists>msg. get_track item_link = Inl (AttributeError msg))
         \<and> (\<forall>items. item_link \<in> set items \<longrightarrow> (\<exists>e. get_tracks items = Inl e))"
proof -
  have a: "\<exists>msg. get_track item_link = Inl (AttributeError msg)"
    using assms by (auto simp: get_track_def Let_def split: option.splits)
  have "\<exists>e. get_tracks items = Inl e" if "item_link \<in> set items" for items
    using that a by (induction items) (auto split: sum.splits)
  with a show ?thesis by blast
qed

theorem get_track_malformed_witness:
  "find_name ''h2'' no_headline_entry = None
   \<and> (\<exists>msg. get_track no_headline_entry = Inl (AttributeError msg))
   \<and> (\<exists>e. get_tracks [song_name_entry, no_headline_entry] = Inl e)
   \<and> (\<exists>msg. get_track no_text_entry = Inl (AttributeError msg))
   \<and> find_name ''ul'' no_list_entry = None
   \<and> (\<exists>msg. get_track no_list_entry = Inl (AttributeError msg))"
proof -
  have a: "find_name ''h2'' no_headline_entry = None"
    by (simp add: no_headline_entry_def find_name_def)
  have b: "\<exists>h2. find_name ''h2'' no_text_entry = Some h2 \<and> node_string h2 = None"
    by (simp add: no_text_entry_def find_name_def)
  have c: "find_name ''ul'' no_list_entry = None"
    by (simp add: no_list_entry_def find_name_def text_tag_def)
  from a have a': "find_name ''h2'' no_headline_entry = None
           \<or> (\<exists>h2. find_name ''h2'' no_headline_entry = Some h2 \<and> node_string h2 = None)
           \<or> find_name ''ul'' no_headline_entry = None" by simp
  from b have b': "find_name ''h2'' no_text_entry = None
           \<or> (\<exists>h2. find_name ''h2'' no_text_entry = Some h2 \<and> node_string h2 = None)
           \<or> find_name ''ul'' no_text_entry = None" by simp
  from c have c': "find_name ''h2'' no_list_entry = None
           \<or> (\<exists>h2. find_name ''h2'' no_list_entry = Some h2 \<and> node_string h2 = None)
           \<or> find_name ''ul'' no_list_entry = None" by simp
  have m: "no_headline_entry \<in> set [song_name_entry, no_headline_entry]" by simp
  from get_track_malformed [OF a'] m
  have g: "(\<exists>msg. get_track no_headline_entry = Inl (AttributeError msg))
           \<and> (\<exists>e. get_tracks [song_name_entry, no_headline_entry] = Inl e)"
    by blast
  from g get_track_malformed [OF b'] get_track_malformed [OF c'] a c
  show ?thesis by blast
qed

section \<open>The entries of a page\<close>

lemma tag_matches_entry: "tag_matches ''a'' entry_classes n = is_entry_link n"
proof (cases n)
  case (Tag nm c ks)
  show ?thesis
  proof (cases c)
    case None
    with Tag show ?thesis by (simp add: class_matches_def)
  next
    case (Some cs)
    have j: "join_with '' '' cs \<in> set entry_classes
             \<longrightarrow> list_ex (\<lambda>c. c \<in> set entry_classes) cs"
    proof (cases cs)
      case Nil
      then show ?thesis by (simp add: entry_classes_def)
    next
      case (Cons x r)
      show ?thesis
      proof (cases r)
        case Nil
        with Cons show ?thesis by simp
      next
        case (Cons y r')
        have sp: "CHR '' '' \<in> set (join_with '' '' (x # y # r'))" by simp
        have "CHR '' '' \<notin> set c" if "c \<in> set entry_classes" for c
          using that by (auto simp: entry_classes_def)
        with sp have "join_with '' '' (x # y # r') \<notin> set entry_classes"
          by blast
        with Cons \<open>cs = x # r\<close> show ?thesis by simp
      qed
    qed
    have "list_ex (\<lambda>c. c \<in> set entry_classes) cs
          = (''title-link'' \<in> set cs \<or> ''track-collection-item__track-link'' \<in> set cs)"
      by (auto simp: list_ex_iff entry_classes_def)
    with j Tag Some show ?thesis by (auto simp: class_matches_def)
  qed
next
  case (NavigableString s)
  then show ?thesis by simp
qed

lemma get_tracks_map: "get_tracks items = Inr tracks \<Longrightarrow> map Inr tracks = map get_track items"
  by (induction items arbitrary: tracks) (auto split: sum.splits)

lemma mixed_page_tracks:
  "get_tracks (find_all_class ''a'' entry_classes mixed_page)
     = Inr [(ustr_of ''One'', ustr_of ''Ann''), (ustr_of ''Two'', ustr_of ''Bob'')]"
  by (simp add: mixed_page_def get_track_def entry_defs)

section \<open>The page loop\<close>

lemma loop_core_indep:
  "core (scrape_loop w verbose end_page page_no all_tracks pages out)
     = core (scrape_loop w verbose' end_page page_no all_tracks pages out')"
proof (induction w verbose end_page page_no all_tracks pages out arbitrary: out'
       rule: scrape_loop.induct)
  case (1 w verbose end_page page_no all_tracks pages out)
  show ?case
    apply (subst scrape_loop.simps)
    apply (subst (2) scrape_loop.simps)
    apply (auto simp: Let_def core_def split: sum.splits)
    using 1 [unfolded core_def] apply (auto simp: Let_def)
    done
qed

lemma loop_step:
  "core (scrape_loop w verbose end_page page_no all_tracks pages out) =
     (if int_val page_no \<le> int_val end_page then
        (case page_tracks w page_no of
           Inr tracks \<Rightarrow>
             core (scrape_loop w verbose end_page (PyInt (int_val page_no + 1))
                     (all_tracks @ tracks) (pages @ [page_no]) out)
         | Inl e \<Rightarrow>
             (if is_HTTPError e \<and> urlopen w (page_url page_no) = Inl e
              then (Inr all_tracks, pages @ [page_no])
              else (Inl e, pages @ [page_no])))
      else (Inr all_tracks, pages))"
  apply (subst scrape_loop.simps)
  apply (simp add: Let_def page_tracks_def core_def [of "\<lparr>outcome = x, attempted = y, printed = z\<rparr>" for x y z]
           split: sum.splits)
  apply (auto intro: loop_core_indep)
  done

lemma pages_through_self: "pages_through p (int_val p) = [p]"
  by (simp add: pages_through_def)

lemma pages_through_step:
  "int_val p < m \<Longrightarrow> pages_through p m = p # pages_through (PyInt (int_val p + 1)) m"
  by (simp add: pages_through_def upto_rec1)

lemma pages_through_not_Nil: "pages_through p m \<noteq> []"
  by (simp add: pages_through_def)

lemma distinct_pages_through: "distinct (pages_through p m)"
  by (cases p) (auto simp: pages_through_def distinct_map inj_on_def)

lemma int_val_last_pages_through:
  "int_val p \<le> m \<Longrightarrow> int_val (last (pages_through p m)) = m"
proof (cases "int_val p = m")
  case True
  then show ?thesis using pages_through_self [of p] by simp
next
  case False
  assume "int_val p \<le> m"
  with False have "[int_val p + 1..m] = [int_val p + 1..m - 1] @ [m]"
    by (simp add: upto_rec2)
  then show ?thesis by (simp add: pages_through_def)
qed

lemma loop_trace:
  assumes "int_val p \<le> int_val e"
  shows "\<exists>m tss. int_val p \<le> m \<and> m \<le> int_val e
           \<and> map (page_tracks w) (butlast (pages_through p m)) = map Inr tss
           \<and> core (scrape_loop w v e p acc pages out)
               = (finish w (acc @ concat tss) (last (pages_through p m)),
                  pages @ pages_through p m)
           \<and> (m < int_val e \<longrightarrow> (\<exists>x. page_tracks w (last (pages_through p m)) = Inl x))"
  using assms
proof (induction "nat (int_val e - int_val p)" arbitrary: p acc pages)
  case 0
  then have pe: "int_val p = int_val e" by simp
  show ?case
  proof (cases "page_tracks w p")
    case (Inl x)
    then have "core (scrape_loop w v e p acc pages out) = (finish w (acc @ concat []) p, pages @ [p])"
      using pe by (subst loop_step) (simp add: finish_def)
    then show ?thesis
      using pe [symmetric]
      by (intro exI [of _ "int_val p"] exI [of _ "[]"]) (simp add: pages_through_self)
  next
    case (Inr ts)
    then have "core (scrape_loop w v e p acc pages out) = (finish w (acc @ concat []) p, pages @ [p])"
      using pe by (subst loop_step, simp, subst loop_step, simp add: finish_def)
    then show ?thesis
      using pe [symmetric]
      by (intro exI [of _ "int_val p"] exI [of _ "[]"]) (simp add: pages_through_self)
  qed
next
  case (Suc n)
  then have lt: "int_val p < int_val e" by simp
  show ?case
  proof (cases "page_tracks w p")
    case (Inl x)
    then have "core (scrape_loop w v e p acc pages out) = (finish w (acc @ concat []) p, pages @ [p])"
      using lt by (subst loop_step) (simp add: finish_def)
    then show ?thesis
      using lt Inl by (intro exI [of _ "int_val p"] exI [of _ "[]"]) (simp add: pages_through_self)
  next
    case (Inr ts)
    let ?p' = "PyInt (int_val p + 1)"
    have n: "n = nat (int_val e - int_val ?p')" using Suc.hyps(2) by simp
    have le: "int_val ?p' \<le> int_val e" using lt by simp
    from Suc.hyps(1) [OF n le, of "acc @ ts" "pages @ [p]"]
    obtain m tss where m: "int_val ?p' \<le> m" "m \<le> int_val e"
      and tss: "map (page_tracks w) (butlast (pages_through ?p' m)) = map Inr tss"
      and c: "core (scrape_loop w v e ?p' (acc @ ts) (pages @ [p]) out)
               = (finish w ((acc @ ts) @ concat tss) (last (pages_through ?p' m)),
                  (pages @ [p]) @ pages_through ?p' m)"
      and l: "m < int_val e \<longrightarrow> (\<exists>x. page_tracks w (last (pages_through ?p' m)) = Inl x)"
      by blast
    have pt: "pages_through p m = p # pages_through ?p' m"
      using m by (intro pages_through_step) simp
    have c': "core (scrape_loop w v e p acc pages out)
               = core (scrape_loop w v e ?p' (acc @ ts) (pages @ [p]) out)"
      using lt Inr by (subst loop_step) simp
    show ?thesis
      using m tss l Inr
      by (intro exI [of _ m] exI [of _ "ts # tss"])
         (simp add: c' c pt pages_through_not_Nil)
  qed
qed

lemma songs_attempted:
  assumes "attempted (scrape_songs s e v w) \<noteq> []"
  shows "\<exists>start fin. s = IsInt start \<and> e = IsInt fin \<and> int_val start \<le> int_val fin
           \<and> scrape_songs s e v w = scrape_loop w v fin start [header] [] []"
  using assms
  by (auto simp: scrape_songs_def raising_def split: pyval.splits if_splits)

lemma last_of_failed:
  assumes "q \<in> set xs" and "map f (butlast xs) = map Inr tss" and "f q = Inl x"
  shows "q = last xs"
proof (rule ccontr)
  assume n: "q \<noteq> last xs"
  from assms(1) have "xs \<noteq> []" by auto
  then have "xs = butlast xs @ [last xs]" by simp
  with assms(1) n have "q \<in> set (butlast xs)"
    by (metis Un_iff empty_iff insert_iff list.set(1) list.set(2) set_append)
  then have "f q \<in> set (map f (butlast xs))" by simp
  with assms(2) have "f q \<in> set (map Inr tss)" by simp
  with assms(3) show False by auto
qed

lemma songs_failed_page:
  assumes "q \<in> set (attempted (scrape_songs s e v w))" and "page_tracks w q = Inl x"
  shows "\<exists>start tss. s = IsInt start
           \<and> attempted (scrape_songs s e v w) = pages_through start (int_val q)
           \<and> last (attempted (scrape_songs s e v w)) = q
           \<and> map (page_tracks w) (butlast (attempted (scrape_songs s e v w))) = map Inr tss
           \<and> outcome (scrape_songs s e v w) = finish w (header # concat tss) q"
proof -
  from assms(1) have "attempted (scrape_songs s e v w) \<noteq> []" by auto
  from songs_attempted [OF this] obtain start fin where
    s: "s = IsInt start" and le: "int_val start \<le> int_val fin"
    and r: "scrape_songs s e v w = scrape_loop w v fin start [header] [] []"
    by blast
  from loop_trace [OF le, of w v "[header]" "[]" "[]"] obtain m tss where
    m: "int_val start \<le> m"
    and tss: "map (page_tracks w) (butlast (pages_through start m)) = map Inr tss"
    and c: "core (scrape_loop w v fin start [header] [] [])
              = (finish w ([header] @ concat tss) (last (pages_through start m)),
                 [] @ pages_through start m)"
    by blast
  from c r have a: "attempted (scrape_songs s e v w) = pages_through start m"
    and o: "outcome (scrape_songs s e v w)
              = finish w (header # concat tss) (last (pages_through start m))"
    by (simp_all add: core_def)
  from assms(1) a have "q \<in> set (pages_through start m)" by simp
  from last_of_failed [OF this tss assms(2)] have q: "q = last (pages_through start m)" .
  with int_val_last_pages_through [OF m] have "int_val q = m" by simp
  with s a o tss q show ?thesis by simp
qed

lemma page_url_1_2: "page_url (PyInt 2) \<noteq> page_url (PyInt 1)"
  by (simp add: page_url_def str_int_def digits.simps)

lemma one_page_run:
  "scrape_songs (IsInt (PyInt 1)) (IsInt (PyInt 5)) False one_page_site
     = \<lparr>outcome = Inr [header, (ustr_of ''One'', ustr_of ''Ann''), (ustr_of ''Two'', ustr_of ''Bob'')],
        attempted = [PyInt 1, PyInt 2], printed = []\<rparr>"
  apply (simp add: scrape_songs_def)
  apply (subst scrape_loop.simps)
  apply (simp add: one_page_site_def mixed_page_tracks say_def)
  apply (subst scrape_loop.simps)
  apply (simp add: page_url_1_2 say_def)
  done

lemma failing_run:
  "scrape_songs (IsInt (PyInt 1)) (IsInt (PyInt 3)) False (failing_site e)
     = \<lparr>outcome = (if is_HTTPError e then Inr [header] else Inl e),
        attempted = [PyInt 1], printed = []\<rparr>"
  unfolding scrape_songs_def
  by (subst scrape_loop.simps) (simp add: failing_site_def say_def)

lemma page_then_failed_run:
  "scrape_songs (IsInt (PyInt 1)) (IsInt (PyInt 5)) False (page_then (Inl x))
     = \<lparr>outcome =
          (if is_HTTPError x
           then Inr [header, (ustr_of ''One'', ustr_of ''Ann''), (ustr_of ''Two'', ustr_of ''Bob'')]
           else Inl x),
        attempted = [PyInt 1, PyInt 2], printed = []\<rparr>"
proof -
  have "scrape_loop (page_then (Inl x)) False (PyInt 5) (PyInt 1) [header] [] []
          = scrape_loop (page_then (Inl x)) False (PyInt 5) (PyInt 2)
              ([header] @ [(ustr_of ''One'', ustr_of ''Ann''), (ustr_of ''Two'', ustr_of ''Bob'')])
              [PyInt 1] []"
    by (subst scrape_loop.simps) (simp add: page_then_def mixed_page_tracks say_def)
  also have "\<dots> = \<lparr>outcome =
          (if is_HTTPError x
           then Inr [header, (ustr_of ''One'', ustr_of ''Ann''), (ustr_of ''Two'', ustr_of ''Bob'')]
           else Inl x),
        attempted = [PyInt 1, PyInt 2], printed = []\<rparr>"
    by (subst scrape_loop.simps) (simp add: page_then_def page_url_1_2 say_def)
  finally show ?thesis by (simp add: scrape_songs_def)
qed

lemma page_then_unread_run:
  "scrape_songs (IsInt (PyInt 1)) (IsInt (PyInt 5)) False (page_then (Inr (Inl x)))
     = \<lparr>outcome = Inl x, attempted = [PyInt 1, PyInt 2], printed = []\<rparr>"
proof -
  have "scrape_loop (page_then (Inr (Inl x))) False (PyInt 5) (PyInt 1) [header] [] []
          = scrape_loop (page_then (Inr (Inl x))) False (PyInt 5) (PyInt 2)
              ([header] @ [(ustr_of ''One'', ustr_of ''Ann''), (ustr_of ''Two'', ustr_of ''Bob'')])
              [PyInt 1] []"
    by (subst scrape_loop.simps) (simp add: page_then_def mixed_page_tracks say_def)
  also have "\<dots> = \<lparr>outcome = Inl x, attempted = [PyInt 1, PyInt 2], printed = []\<rparr>"
    by (subst scrape_loop.simps) (simp add: page_then_def page_url_1_2 say_def)
  finally show ?thesis by (simp add: scrape_songs_def)
qed

lemma page_then_answer:
  "urlopen (page_then answer) (page_url (PyInt 2)) = answer"
  by (simp add: page_then_def page_url_1_2)

lemma page_then_first:
  "page_tracks (page_then answer) (PyInt 1)
     = Inr [(ustr_of ''One'', ustr_of ''Ann''), (ustr_of ''Two'', ustr_of ''Bob'')]"
  by (simp add: page_tracks_def page_then_def mixed_page_tracks)

lemma page_tracks_not_failed:
  "page_tracks w p = Inr ts \<Longrightarrow> \<not> isl (urlopen w (page_url p))"
  by (auto simp: page_tracks_def split: sum.splits)

lemma page_tracks_document:
  assumes "page_tracks w p = Inr ts"
  shows "\<exists>body html. urlopen w (page_url p) = Inr (Inr body)
           \<and> decode_utf8 w body = Inr html
           \<and> map Inr ts = map get_track (filter is_entry_link (descendants (html_parser w html)))"
proof -
  from assms obtain body html where
    u: "urlopen w (page_url p) = Inr (Inr body)" and d: "decode_utf8 w body = Inr html"
    and g: "get_tracks (find_all_class ''a'' entry_classes (html_parser w html)) = Inr ts"
    by (auto simp: page_tracks_def split: sum.splits)
  have "find_all_class ''a'' entry_classes (html_parser w html)
          = filter is_entry_link (descendants (html_parser w html))"
    unfolding find_all_class_def by (rule filter_cong) (simp_all add: tag_matches_entry)
  with get_tracks_map [OF g] u d show ?thesis by simp
qed

lemma pages_documents:
  assumes "map (page_tracks w) ps = map Inr tss"
  shows "\<exists>docs. list_all2
                   (\<lambda>p doc. \<exists>body html. urlopen w (page_url p) = Inr (Inr body)
                               \<and> decode_utf8 w body = Inr html
                               \<and> doc = html_parser w html) ps docs
           \<and> map Inr (concat tss)
               = concat (map (\<lambda>doc. map get_track (filter is_entry_link (descendants doc))) docs)"
  using assms
proof (induction ps arbitrary: tss)
  case Nil
  then show ?case by simp
next
  case (Cons p ps)
  then obtain ts tss' where t: "tss = ts # tss'" "page_tracks w p = Inr ts"
    "map (page_tracks w) ps = map Inr tss'"
    by (cases tss) auto
  from page_tracks_document [OF t(2)] obtain body html where
    d: "urlopen w (page_url p) = Inr (Inr body)" "decode_utf8 w body = Inr html"
       "map Inr ts = map get_track (filter is_entry_link (descendants (html_parser w html)))"
    by blast
  from Cons.IH [OF t(3)] obtain docs where
    i: "list_all2
          (\<lambda>p doc. \<exists>body html. urlopen w (page_url p) = Inr (Inr body)
                      \<and> decode_utf8 w body = Inr html
                      \<and> doc = html_parser w html) ps docs"
       "map Inr (concat tss')
          = concat (map (\<lambda>doc. map get_track (filter is_entry_link (descendants doc))) docs)"
    by blast
  show ?case
    using t(1) d i by (intro exI [of _ "html_parser w html # docs"]) auto
qed

lemma songs_returned:
  assumes "outcome (scrape_songs s e v w) = Inr tracks"
  shows "\<exists>start fin m tss. s = IsInt start \<and> e = IsInt fin
           \<and> int_val start \<le> m \<and> m \<le> int_val fin
           \<and> attempted (scrape_songs s e v w) = pages_through start m
           \<and> (m < int_val fin \<longrightarrow>
                (\<exists>code. urlopen w (page_url (last (pages_through start m)))
                           = Inl (HTTPError code)))
           \<and> map (page_tracks w)
                 (filter (\<lambda>p. \<not> isl (urlopen w (page_url p))) (pages_through start m))
               = map Inr tss
           \<and> tracks = header # concat tss"
proof -
  from assms obtain start fin where s: "s = IsInt start" "e = IsInt fin"
    and le: "int_val start \<le> int_val fin"
    and r: "scrape_songs s e v w = scrape_loop w v fin start [header] [] []"
    by (cases s; cases e) (auto simp: scrape_songs_def raising_def split: if_splits)
  from loop_trace [OF le, of w v "[header]" "[]" "[]"] obtain m tss where
    m: "int_val start \<le> m" "m \<le> int_val fin"
    and tss: "map (page_tracks w) (butlast (pages_through start m)) = map Inr tss"
    and c: "core (scrape_loop w v fin start [header] [] [])
              = (finish w ([header] @ concat tss) (last (pages_through start m)),
                 [] @ pages_through start m)"
    and l: "m < int_val fin \<longrightarrow> (\<exists>x. page_tracks w (last (pages_through start m)) = Inl x)"
    by blast
  let ?xs = "pages_through start m"
  let ?ok = "\<lambda>p. \<not> isl (urlopen w (page_url p))"
  from c r have a: "attempted (scrape_songs s e v w) = ?xs"
    and o: "outcome (scrape_songs s e v w) = finish w (header # concat tss) (last ?xs)"
    by (simp_all add: core_def)
  have xs: "?xs = butlast ?xs @ [last ?xs]"
    using pages_through_not_Nil [of start m] by simp
  have "?ok p" if "p \<in> set (butlast ?xs)" for p
  proof -
    from that have "page_tracks w p \<in> set (map (page_tracks w) (butlast ?xs))" by simp
    with tss obtain ts where "page_tracks w p = Inr ts" by auto
    then show ?thesis by (rule page_tracks_not_failed)
  qed
  then have fb: "filter ?ok (butlast ?xs) = butlast ?xs" by (simp add: filter_id_conv)
  have f: "filter ?ok ?xs = butlast ?xs @ (if ?ok (last ?xs) then [last ?xs] else [])"
    by (subst xs) (simp add: fb)
  have h: "\<exists>code. urlopen w (page_url (last ?xs)) = Inl (HTTPError code)"
    if "page_tracks w (last ?xs) = Inl x" for x
  proof -
    from that o assms have "urlopen w (page_url (last ?xs)) = Inl x" "is_HTTPError x"
      by (auto simp: finish_def split: if_splits)
    then show ?thesis by (cases x) auto
  qed
  from l h have stop: "m < int_val fin \<longrightarrow>
      (\<exists>code. urlopen w (page_url (last ?xs)) = Inl (HTTPError code))"
    by blast
  show ?thesis
  proof (cases "page_tracks w (last ?xs)")
    case (Inr ts)
    then have "?ok (last ?xs)" by (rule page_tracks_not_failed)
    with f have "map (page_tracks w) (filter ?ok ?xs) = map Inr (tss @ [ts])"
      using tss Inr by simp
    moreover from o assms Inr have "tracks = header # concat (tss @ [ts])"
      by (simp add: finish_def)
    ultimately show ?thesis using a s m stop by blast
  next
    case (Inl x)
    with o assms have u: "urlopen w (page_url (last ?xs)) = Inl x" and t: "tracks = header # concat tss"
      by (auto simp: finish_def split: if_splits)
    from u have "\<not> ?ok (last ?xs)" by simp
    with f tss have "map (page_tracks w) (filter ?ok ?xs) = map Inr tss" by simp
    with t a s m stop show ?thesis by blast
  qed
qed

text \<open>
  C1. In every run that calls \<open>urlopen\<close> for a page \<open>q\<close> and gets
  \<open>HTTPError\<close> there, the pages asked for are those from \<open>start_page\<close> to
  \<open>q\<close>, \<open>q\<close> is the last of them, every page before \<open>q\<close> gave its records,
  and the run returns, without raising, the header followed by exactly the
  records of the pages before \<open>q\<close>, in page order.
\<close>

theorem not_found_stops:
  assumes "q \<in> set (attempted (scrape_songs (IsInt start) e v w))"
    and "urlopen w (page_url q) = Inl (HTTPError code)"
  shows "\<exists>tss. attempted (scrape_songs (IsInt start) e v w) = pages_through start (int_val q)
           \<and> last (attempted (scrape_songs (IsInt start) e v w)) = q
           \<and> map (page_tracks w) (butlast (attempted (scrape_songs (IsInt start) e v w)))
                = map Inr tss
           \<and> outcome (scrape_songs (IsInt start) e v w) = Inr (header # concat tss)"
proof -
  from assms(2) have p: "page_tracks w q = Inl (HTTPError code)"
    by (simp add: page_tracks_def)
  from songs_failed_page [OF assms(1) p] assms(2) p show ?thesis
    by (auto simp: finish_def)
qed

theorem not_found_stops_witness:
  "PyInt 2 \<in> set (attempted (scrape_songs (IsInt (PyInt 1)) (IsInt (PyInt 5)) False one_page_site))
   \<and> urlopen one_page_site (page_url (PyInt 2)) = Inl (HTTPError 404)
   \<and> attempted (scrape_songs (IsInt (PyInt 1)) (IsInt (PyInt 5)) False one_page_site)
        = [PyInt 1, PyInt 2]
   \<and> page_tracks one_page_site (PyInt 1)
        = Inr [(ustr_of ''One'', ustr_of ''Ann''), (ustr_of ''Two'', ustr_of ''Bob'')]
   \<and> outcome (scrape_songs (IsInt (PyInt 1)) (IsInt (PyInt 5)) False one_page_site)
        = Inr [header, (ustr_of ''One'', ustr_of ''Ann''), (ustr_of ''Two'', ustr_of ''Bob'')]"
proof -
  have a: "PyInt 2 \<in> set (attempted (scrape_songs (IsInt (PyInt 1)) (IsInt (PyInt 5)) False one_page_site))"
    by (simp add: one_page_run)
  have u: "urlopen one_page_site (page_url (PyInt 2)) = Inl (HTTPError 404)"
    by (simp add: one_page_site_def page_url_1_2)
  have p: "page_tracks one_page_site (PyInt 1)
        = Inr [(ustr_of ''One'', ustr_of ''Ann''), (ustr_of ''Two'', ustr_of ''Bob'')]"
    by (simp add: page_tracks_def one_page_site_def mixed_page_tracks)
  from not_found_stops [OF a u] a u p show ?thesis
    by (auto simp: one_page_run)
qed

text \<open>
  C2, as the code has it. When the fetch of a page the run asks for fails,
  in \<open>urlopen\<close> or in reading the response, that page is the last one asked
  for and no page is asked for twice. A failure that \<open>urlopen\<close> does not raise
  as an \<open>HTTPError\<close> (a timeout, a DNS failure, a failed read) is raised to the
  caller unchanged. An \<open>HTTPError\<close> from \<open>urlopen\<close>, of any status, 5xx as well
  as 404, ends the run normally: it returns the header pair followed by the
  records of the pages before, all of which gave their records.
\<close>

theorem only_http_errors_end_the_run:
  assumes "q \<in> set (attempted (scrape_songs s e v w))"
    and "urlopen w (page_url q) = Inl x \<or> urlopen w (page_url q) = Inr (Inl x)"
  shows "\<exists>tss. map (page_tracks w) (butlast (attempted (scrape_songs s e v w))) = map Inr tss
           \<and> outcome (scrape_songs s e v w)
               = (if urlopen w (page_url q) = Inl x \<and> is_HTTPError x
                  then Inr ((ustr_of ''title'', ustr_of ''artist'') # concat tss)
                  else Inl x)
           \<and> last (attempted (scrape_songs s e v w)) = q
           \<and> distinct (attempted (scrape_songs s e v w))"
proof -
  from assms(2) have p: "page_tracks w q = Inl x"
    by (auto simp: page_tracks_def)
  from songs_failed_page [OF assms(1) p] obtain start tss where
    a: "attempted (scrape_songs s e v w) = pages_through start (int_val q)"
    and l: "last (attempted (scrape_songs s e v w)) = q"
    and t: "map (page_tracks w) (butlast (attempted (scrape_songs s e v w))) = map Inr tss"
    and o: "outcome (scrape_songs s e v w) = finish w (header # concat tss) q"
    by blast
  from a have d: "distinct (attempted (scrape_songs s e v w))"
    by (simp add: distinct_pages_through)
  from o p have "outcome (scrape_songs s e v w)
               = (if urlopen w (page_url q) = Inl x \<and> is_HTTPError x
                  then Inr ((ustr_of ''title'', ustr_of ''artist'') # concat tss)
                  else Inl x)"
    by (auto simp: finish_def header_def)
  with t l d show ?thesis by (intro exI [of _ tss]) simp
qed

theorem only_http_errors_end_the_run_witness:
  "PyInt 2 \<in> set (attempted (scrape_songs (IsInt (PyInt 1)) (IsInt (PyInt 5)) False
                              (page_then (Inl (URLError ''timed out'')))))
   \<and> urlopen (page_then (Inl (URLError ''timed out''))) (page_url (PyInt 2))
        = Inl (URLError ''timed out'')
   \<and> outcome (scrape_songs (IsInt (PyInt 1)) (IsInt (PyInt 5)) False
                (page_then (Inl (URLError ''timed out'')))) = Inl (URLError ''timed out'')
   \<and> PyInt 2 \<in> set (attempted (scrape_songs (IsInt (PyInt 1)) (IsInt (PyInt 5)) False
                              (page_then (Inr (Inl IncompleteRead)))))
   \<and> urlopen (page_then (Inr (Inl IncompleteRead))) (page_url (PyInt 2))
        = Inr (Inl IncompleteRead)
   \<and> outcome (scrape_songs (IsInt (PyInt 1)) (IsInt (PyInt 5)) False
                (page_then (Inr (Inl IncompleteRead)))) = Inl IncompleteRead
   \<and> PyInt 2 \<in> set (attempted (scrape_songs (IsInt (PyInt 1)) (IsInt (PyInt 5)) False
                              (page_then (Inl (HTTPError 503)))))
   \<and> urlopen (page_then (Inl (HTTPError 503))) (page_url (PyInt 2)) = Inl (HTTPError 503)
   \<and> page_tracks (page_then (Inl (HTTPError 503))) (PyInt 1)
        = Inr [(ustr_of ''One'', ustr_of ''Ann''), (ustr_of ''Two'', ustr_of ''Bob'')]
   \<and> outcome (scrape_songs (IsInt (PyInt 1)) (IsInt (PyInt 5)) False
                (page_then (Inl (HTTPError 503))))
        = Inr [(ustr_of ''title'', ustr_of ''artist''),
               (ustr_of ''One'', ustr_of ''Ann''), (ustr_of ''Two'', ustr_of ''Bob'')]
   \<and> attempted (scrape_songs (IsInt (PyInt 1)) (IsInt (PyInt 5)) False
                  (page_then (Inl (HTTPError 503)))) = [PyInt 1, PyInt 2]"
proof -
  let ?run = "\<lambda>answer. scrape_songs (IsInt (PyInt 1)) (IsInt (PyInt 5)) False (page_then answer)"
  have a1: "PyInt 2 \<in> set (attempted (?run (Inl (URLError ''timed out''))))"
    and a3: "PyInt 2 \<in> set (attempted (?run (Inl (HTTPError 503))))"
    by (simp_all add: page_then_failed_run)
  have a2: "PyInt 2 \<in> set (attempted (?run (Inr (Inl IncompleteRead))))"
    by (simp add: page_then_unread_run)
  have u1: "urlopen (page_then (Inl (URLError ''timed out''))) (page_url (PyInt 2))
              = Inl (URLError ''timed out'')
            \<or> urlopen (page_then (Inl (URLError ''timed out''))) (page_url (PyInt 2))
              = Inr (Inl (URLError ''timed out''))"
    and u2: "urlopen (page_then (Inr (Inl IncompleteRead))) (page_url (PyInt 2))
              = Inl IncompleteRead
            \<or> urlopen (page_then (Inr (Inl IncompleteRead))) (page_url (PyInt 2))
              = Inr (Inl IncompleteRead)"
    and u3: "urlopen (page_then (Inl (HTTPError 503))) (page_url (PyInt 2))
              = Inl (HTTPError 503)
            \<or> urlopen (page_then (Inl (HTTPError 503))) (page_url (PyInt 2))
              = Inr (Inl (HTTPError 503))"
    by (simp_all add: page_then_answer)
  from only_http_errors_end_the_run [OF a1 u1]
  have o1: "outcome (?run (Inl (URLError ''timed out''))) = Inl (URLError ''timed out'')"
    by (auto simp: page_then_answer)
  from only_http_errors_end_the_run [OF a2 u2]
  have o2: "outcome (?run (Inr (Inl IncompleteRead))) = Inl IncompleteRead"
    by (auto simp: page_then_answer)
  have b3: "butlast (attempted (?run (Inl (HTTPError 503)))) = [PyInt 1]"
    by (simp add: page_then_failed_run)
  from only_http_errors_end_the_run [OF a3 u3] obtain tss where
    m: "map (page_tracks (page_then (Inl (HTTPError 503))))
          (butlast (attempted (?run (Inl (HTTPError 503))))) = map Inr tss"
    and o: "outcome (?run (Inl (HTTPError 503)))
       = (if urlopen (page_then (Inl (HTTPError 503))) (page_url (PyInt 2)) = Inl (HTTPError 503)
             \<and> is_HTTPError (HTTPError 503)
          then Inr ((ustr_of ''title'', ustr_of ''artist'') # concat tss)
          else Inl (HTTPError 503))"
    by (elim exE conjE) (rule that, assumption+)
  from m have "tss = [(ustr_of ''One'', ustr_of ''Ann''), (ustr_of ''Two'', ustr_of ''Bob'')] # []"
    unfolding b3 by (cases tss) (auto simp: page_then_first)
  with o have o3: "outcome (?run (Inl (HTTPError 503)))
        = Inr [(ustr_of ''title'', ustr_of ''artist''),
               (ustr_of ''One'', ustr_of ''Ann''), (ustr_of ''Two'', ustr_of ''Bob'')]"
    by (simp add: page_then_answer)
  have at: "attempted (?run (Inl (HTTPError 503))) = [PyInt 1, PyInt 2]"
    by (simp add: page_then_failed_run)
  from a1 a2 a3 o1 o2 o3 at show ?thesis
    by (simp add: page_then_answer page_then_first)
qed

text \<open>
  C2 as it was stated fails on a site that answers 503: \<open>urlopen\<close> raises
  \<open>HTTPError\<close>, which the loop takes for the end of the pages, and the run
  returns the header alone instead of raising.
\<close>

theorem server_error_counterexample:
  "urlopen (failing_site (HTTPError 503)) (page_url (PyInt 1)) = Inl (HTTPError 503)
   \<and> attempted (scrape_songs (IsInt (PyInt 1)) (IsInt (PyInt 3)) False
                 (failing_site (HTTPError 503))) = [PyInt 1]
   \<and> outcome (scrape_songs (IsInt (PyInt 1)) (IsInt (PyInt 3)) False
                (failing_site (HTTPError 503))) = Inr [header]"
proof -
  have "urlopen (failing_site (HTTPError 503)) (page_url (PyInt 1)) = Inl (HTTPError 503)"
    by (simp add: failing_site_def)
  then show ?thesis by (simp add: failing_run)
qed

text \<open>
  C3. Outside the valid range (\<open>start_page\<close> not an integer, or below 1, or
  \<open>end_page\<close> not an integer, or below \<open>start_page\<close>) the run raises
  \<open>ValueError\<close>, the invalid-range failure of the specification, having asked
  for no page and printed nothing; with \<open>end_page\<close> equal to a \<open>start_page\<close> of
  at least 1 the arguments are accepted and exactly that page is asked for.
  The witness has the pairs (5, 3) and (0, 10) of the specification.
\<close>

theorem validation_before_fetch:
  "(\<not> valid_range s e \<longrightarrow>
      (\<exists>msg. outcome (scrape_songs s e v w) = Inl (ValueError msg))
      \<and> attempted (scrape_songs s e v w) = []
      \<and> printed (scrape_songs s e v w) = [])
   \<and> (1 \<le> int_val i \<longrightarrow> attempted (scrape_songs (IsInt i) (IsInt i) v w) = [i])"
proof -
  have "attempted (scrape_songs (IsInt i) (IsInt i) v w) = [i]" if i: "1 \<le> int_val i"
  proof -
    from loop_trace [of i i w v "[header]" "[]" "[]"] obtain m where
      "int_val i \<le> m" "m \<le> int_val i"
      "attempted (scrape_loop w v i i [header] [] []) = pages_through i m"
      by (auto simp: core_def)
    then have "attempted (scrape_loop w v i i [header] [] []) = [i]"
      using pages_through_self [of i] by simp
    with i show ?thesis by (simp add: scrape_songs_def)
  qed
  moreover have "(\<exists>msg. outcome (scrape_songs s e v w) = Inl (ValueError msg))
      \<and> attempted (scrape_songs s e v w) = []
      \<and> printed (scrape_songs s e v w) = []" if "\<not> valid_range s e"
    using that
    by (cases s; cases e) (auto simp: scrape_songs_def raising_def)
  ultimately show ?thesis by blast
qed

theorem validation_before_fetch_witness:
  "outcome (scrape_songs (IsInt (PyInt 5)) (IsInt (PyInt 3)) True one_page_site)
     = Inl (ValueError ''Final page number must be higher than the first page number.'')
   \<and> attempted (scrape_songs (IsInt (PyInt 5)) (IsInt (PyInt 3)) True one_page_site) = []
   \<and> outcome (scrape_songs (IsInt (PyInt 0)) (IsInt (PyInt 10)) True one_page_site)
     = Inl (ValueError ''First page number must be 1 or higher.'')
   \<and> attempted (scrape_songs (IsInt (PyInt 0)) (IsInt (PyInt 10)) True one_page_site) = []
   \<and> outcome (scrape_songs (NotInt ''float'') (IsInt (PyInt 10)) True one_page_site)
     = Inl (ValueError ''Page number must be an integer.'')
   \<and> attempted (scrape_songs (IsInt (PyInt 4)) (IsInt (PyInt 4)) True one_page_site) = [PyInt 4]"
  using validation_before_fetch [of "IsInt (PyInt 5)" "IsInt (PyInt 3)" True one_page_site "PyInt 4"]
    validation_before_fetch [of "IsInt (PyInt 0)" "IsInt (PyInt 10)" True one_page_site "PyInt 4"]
    validation_before_fetch [of "NotInt ''float''" "IsInt (PyInt 10)" True one_page_site "PyInt 4"]
  by (simp add: scrape_songs_def raising_def)

text \<open>
  C4. Whenever a run returns normally, what it returns is not empty and its
  first element is exactly the pair of the strings \<open>title\<close> and \<open>artist\<close>.
\<close>

theorem header_first:
  assumes "outcome (scrape_songs s e v w) = Inr tracks"
  shows "\<exists>records. tracks = (ustr_of ''title'', ustr_of ''artist'') # records"
proof (cases "valid_range s e")
  case False
  then show ?thesis using assms
    by (cases s; cases e) (auto simp: scrape_songs_def raising_def split: if_splits)
next
  case True
  then obtain start fin where s: "s = IsInt start" "e = IsInt fin"
    and le: "1 \<le> int_val start" "int_val start \<le> int_val fin"
    by (cases s; cases e) auto
  from loop_trace [OF le(2), of w v "[header]" "[]" "[]"] obtain m tss where
    "outcome (scrape_loop w v fin start [header] [] [])
       = finish w ([header] @ concat tss) (last (pages_through start m))"
    by (auto simp: core_def)
  with s le assms show ?thesis
    by (auto simp: scrape_songs_def finish_def header_def split: sum.splits if_splits)
qed

theorem header_first_witness:
  "outcome (scrape_songs (IsInt (PyInt 1)) (IsInt (PyInt 5)) False one_page_site)
     = Inr [(ustr_of ''title'', ustr_of ''artist''),
            (ustr_of ''One'', ustr_of ''Ann''), (ustr_of ''Two'', ustr_of ''Bob'')]
   \<and> ustr_of ''title'' = [116, 105, 116, 108, 101]
   \<and> ustr_of ''artist'' = [97, 114, 116, 105, 115, 116]
   \<and> (\<exists>records. [(ustr_of ''title'', ustr_of ''artist''),
                  (ustr_of ''One'', ustr_of ''Ann''), (ustr_of ''Two'', ustr_of ''Bob'')]
                   = (ustr_of ''title'', ustr_of ''artist'') # records)"
proof -
  have o: "outcome (scrape_songs (IsInt (PyInt 1)) (IsInt (PyInt 5)) False one_page_site)
     = Inr [(ustr_of ''title'', ustr_of ''artist''),
            (ustr_of ''One'', ustr_of ''Ann''), (ustr_of ''Two'', ustr_of ''Bob'')]"
    by (simp add: one_page_run header_def)
  have c: "ustr_of ''title'' = [116, 105, 116, 108, 101]"
    "ustr_of ''artist'' = [97, 114, 116, 105, 115, 116]"
    by (simp_all add: ustr_of_def)
  from header_first [OF o] o c show ?thesis by blast
qed

text \<open>
  C5. In every run that returns normally, the pages asked for are those from
  \<open>start_page\<close> on, up to \<open>end_page\<close> or to the page where \<open>urlopen\<close> raised
  \<open>HTTPError\<close>. Each page that \<open>urlopen\<close> answered was read, decoded and
  parsed into a document, and what the run returns is the header pair followed,
  page after page, by the records of exactly the anchors of the document whose
  classes include \<open>title-link\<close> or \<open>track-collection-item__track-link\<close>, in the
  order the anchors have in the document: the one \<open>find_all\<close> query selects
  both variants. The witness is a run over a page with one entry of each
  variant and an anchor of another class between them: it returns both
  records, in document order.
\<close>

theorem entries_in_document_order:
  assumes "outcome (scrape_songs s e v w) = Inr tracks"
  shows "\<exists>start fin m docs. s = IsInt start \<and> e = IsInt fin
           \<and> int_val start \<le> m \<and> m \<le> int_val fin
           \<and> attempted (scrape_songs s e v w) = pages_through start m
           \<and> (m < int_val fin \<longrightarrow>
                (\<exists>code. urlopen w (page_url (last (pages_through start m)))
                           = Inl (HTTPError code)))
           \<and> list_all2
                 (\<lambda>p doc. \<exists>body html. urlopen w (page_url p) = Inr (Inr body)
                             \<and> decode_utf8 w body = Inr html
                             \<and> doc = html_parser w html)
                 (filter (\<lambda>p. \<not> isl (urlopen w (page_url p))) (pages_through start m))
                 docs
           \<and> map Inr tracks
               = Inr (ustr_of ''title'', ustr_of ''artist'')
                 # concat (map (\<lambda>doc. map get_track (filter is_entry_link (descendants doc)))
                              docs)"
proof -
  from songs_returned [OF assms] obtain start fin m tss where
    a: "s = IsInt start" "e = IsInt fin" "int_val start \<le> m" "m \<le> int_val fin"
       "attempted (scrape_songs s e v w) = pages_through start m"
       "m < int_val fin \<longrightarrow>
          (\<exists>code. urlopen w (page_url (last (pages_through start m))) = Inl (HTTPError code))"
    and p: "map (page_tracks w)
          (filter (\<lambda>p. \<not> isl (urlopen w (page_url p))) (pages_through start m))
        = map Inr tss"
    and t: "tracks = header # concat tss"
    by blast
  from pages_documents [OF p] obtain docs where
    d: "list_all2
          (\<lambda>p doc. \<exists>body html. urlopen w (page_url p) = Inr (Inr body)
                      \<and> decode_utf8 w body = Inr html
                      \<and> doc = html_parser w html)
          (filter (\<lambda>p. \<not> isl (urlopen w (page_url p))) (pages_through start m)) docs"
       "map Inr (concat tss)
          = concat (map (\<lambda>doc. map get_track (filter is_entry_link (descendants doc))) docs)"
    by blast
  from t d(2) have "map Inr tracks
               = Inr (ustr_of ''title'', ustr_of ''artist'')
                 # concat (map (\<lambda>doc. map get_track (filter is_entry_link (descendants doc)))
                              docs)"
    by (simp add: header_def)
  with a d(1) show ?thesis
    by (intro exI [of _ start] exI [of _ fin] exI [of _ m] exI [of _ docs]) simp
qed

theorem entries_in_document_order_witness:
  "outcome (scrape_songs (IsInt (PyInt 1)) (IsInt (PyInt 5)) False one_page_site)
     = Inr [(ustr_of ''title'', ustr_of ''artist''),
            (ustr_of ''One'', ustr_of ''Ann''), (ustr_of ''Two'', ustr_of ''Bob'')]
   \<and> attempted (scrape_songs (IsInt (PyInt 1)) (IsInt (PyInt 5)) False one_page_site)
       = [PyInt 1, PyInt 2]
   \<and> urlopen one_page_site (page_url (PyInt 1)) = Inr (Inr [60, 97, 62])
   \<and> urlopen one_page_site (page_url (PyInt 2)) = Inl (HTTPError 404)
   \<and> html_parser one_page_site [60, 97, 62] = mixed_page
   \<and> filter is_entry_link (descendants mixed_page)
       = [entry ''title-link'' (ustr_of ''One'') [ustr_of ''Ann''],
          entry ''track-collection-item__track-link'' (ustr_of ''Two'') [ustr_of ''Bob'']]
   \<and> map get_track (filter is_entry_link (descendants mixed_page))
       = [Inr (ustr_of ''One'', ustr_of ''Ann''), Inr (ustr_of ''Two'', ustr_of ''Bob'')]
   \<and> (\<exists>docs. list_all2
                 (\<lambda>p doc. \<exists>body html. urlopen one_page_site (page_url p) = Inr (Inr body)
                             \<and> decode_utf8 one_page_site body = Inr html
                             \<and> doc = html_parser one_page_site html)
                 [PyInt 1] docs
           \<and> map Inr [(ustr_of ''title'', ustr_of ''artist''),
                       (ustr_of ''One'', ustr_of ''Ann''), (ustr_of ''Two'', ustr_of ''Bob'')]
               = Inr (ustr_of ''title'', ustr_of ''artist'')
                 # concat (map (\<lambda>doc. map get_track (filter is_entry_link (descendants doc)))
                              docs))"
proof -
  let ?R = "scrape_songs (IsInt (PyInt 1)) (IsInt (PyInt 5)) False one_page_site"
  let ?T = "[(ustr_of ''title'', ustr_of ''artist''),
            (ustr_of ''One'', ustr_of ''Ann''), (ustr_of ''Two'', ustr_of ''Bob'')]"
  have o: "outcome ?R = Inr ?T"
    by (simp add: one_page_run header_def)
  have a: "attempted ?R = [PyInt 1, PyInt 2]"
    by (simp add: one_page_run)
  have u1: "urlopen one_page_site (page_url (PyInt 1)) = Inr (Inr [60, 97, 62])"
    and u2: "urlopen one_page_site (page_url (PyInt 2)) = Inl (HTTPError 404)"
    and hp: "html_parser one_page_site [60, 97, 62] = mixed_page"
    by (simp_all add: one_page_site_def page_url_1_2)
  have f: "filter is_entry_link (descendants mixed_page)
       = [entry ''title-link'' (ustr_of ''One'') [ustr_of ''Ann''],
          entry ''track-collection-item__track-link'' (ustr_of ''Two'') [ustr_of ''Bob'']]"
    by (simp add: mixed_page_def entry_def text_tag_def)
  have g: "map get_track (filter is_entry_link (descendants mixed_page))
       = [Inr (ustr_of ''One'', ustr_of ''Ann''), Inr (ustr_of ''Two'', ustr_of ''Bob'')]"
    unfolding f by (simp add: get_track_def entry_defs)
  from entries_in_document_order [OF o] obtain start m docs where
    p: "attempted ?R = pages_through start m"
    and l: "list_all2
                 (\<lambda>p doc. \<exists>body html. urlopen one_page_site (page_url p) = Inr (Inr body)
                             \<and> decode_utf8 one_page_site body = Inr html
                             \<and> doc = html_parser one_page_site html)
                 (filter (\<lambda>p. \<not> isl (urlopen one_page_site (page_url p))) (pages_through start m))
                 docs"
    and t: "map Inr ?T
               = Inr (ustr_of ''title'', ustr_of ''artist'')
                 # concat (map (\<lambda>doc. map get_track (filter is_entry_link (descendants doc)))
                              docs)"
    by (elim exE conjE) (rule that, assumption+)
  from p a have "pages_through start m = [PyInt 1, PyInt 2]" by simp
  with l u1 u2 have "list_all2
                 (\<lambda>p doc. \<exists>body html. urlopen one_page_site (page_url p) = Inr (Inr body)
                             \<and> decode_utf8 one_page_site body = Inr html
                             \<and> doc = html_parser one_page_site html)
                 [PyInt 1] docs"
    by simp
  with t have "\<exists>docs. list_all2
                 (\<lambda>p doc. \<exists>body html. urlopen one_page_site (page_url p) = Inr (Inr body)
                             \<and> decode_utf8 one_page_site body = Inr html
                             \<and> doc = html_parser one_page_site html)
                 [PyInt 1] docs
           \<and> map Inr ?T
               = Inr (ustr_of ''title'', ustr_of ''artist'')
                 # concat (map (\<lambda>doc. map get_track (filter is_entry_link (descendants doc)))
                              docs)"
    by (intro exI [of _ docs] conjI)
  with o a u1 u2 hp f g show ?thesis by (intro conjI)
qed

text \<open>
  C10. The value a run returns or the exception it raises, and the pages it
  asks for, are the same with \<open>verbose\<close> on and off, whatever the site and the
  parser do; \<open>verbose\<close> changes only what is printed.
\<close>

theorem verbose_independent:
  "outcome (scrape_songs s e True w) = outcome (scrape_songs s e False w)
   \<and> attempted (scrape_songs s e True w) = attempted (scrape_songs s e False w)"
  using loop_core_indep [of w True _ _ "[header]" "[]" "[]" False "[]"]
  by (cases s; cases e) (auto simp: scrape_songs_def raising_def core_def)

end
